theory Spec2Isabelle
  imports Main "HOL-Library.Word" "HOL-Library.Sublist"
begin

section \<open>The dockerd worker of the integration test harness\<close>

text \<open>
  A shallow embedding of \<^verbatim>\<open>util/testutil/integration/dockerd.go\<close>: the bootstrap
  \<^verbatim>\<open>moby.New\<close> with its deferred unwind, the readiness poller \<^verbatim>\<open>waitForAPI\<close>, and the
  relay goroutines started by \<^verbatim>\<open>New\<close> (the accept loop and the two copy tasks per
  connection).

  Every call that leaves the process (the filesystem, the daemon, the Docker client, the
  network) is an input of the model: the record \<open>outcomes\<close> says what each call returns in
  the run under consideration, and the release actions get their results from a function
  of their own. What the code does with these results is the model.
\<close>

subsection \<open>Errors\<close>

text \<open>
  Go \<^verbatim>\<open>error\<close> values. \<open>Err\<close> is an error returned by a collaborator, named by its
  message. The other constructors are the three ways the file builds errors
  (\<^verbatim>\<open>github.com/pkg/errors\<close>); formatting is not carried out, the format string and its
  arguments are kept.
\<close>

datatype error =
    Err string
  | ErrorsNew string
  | ErrorsWrapf error string "string list"
  | ErrorsErrorf string error string

subsection \<open>Durations and the readiness poller\<close>

text \<open>
  \<^verbatim>\<open>time.Duration\<close> is an \<^verbatim>\<open>int64\<close> count of nanoseconds: arithmetic wraps around and
  comparison is signed. The counter \<^verbatim>\<open>i\<close> is a Go \<^verbatim>\<open>int\<close>, 64 bits wide on the
  platforms the harness runs on, and \<^verbatim>\<open>time.Duration(i)\<close> keeps its bits.
\<close>

type_synonym duration = "64 word"

definition millisecond :: duration where
  "millisecond = 1000000"

definition second :: duration where
  "second = 1000 * millisecond"

definition step :: duration where
  "step = 50 * millisecond"

definition ping_timeout :: error where
  "ping_timeout = ErrorsNew ''failed to connect to /_ping endpoint''"

text \<open>
  What one call of \<^verbatim>\<open>waitForAPI\<close> did: the error it returned, how many times it called
  \<^verbatim>\<open>apiClient.Ping\<close> and how many times it slept.
\<close>

record poll_result =
  poll_err :: "error option"
  pings :: nat
  sleeps :: nat

text \<open>
  The loop of \<^verbatim>\<open>waitForAPI\<close>. \<open>ping k\<close> says whether the call number \<open>k\<close> (from 0) of
  \<^verbatim>\<open>apiClient.Ping\<close> returns a nil error. \<open>calls\<close> and \<open>slept\<close> count the calls and
  sleeps so far; \<open>i\<close> is the program's counter. The loop has no bound of its own, so it
  is a partial function: \<open>None\<close> is a run that never returns.
\<close>

partial_function (option) waitForAPI_loop ::
  "(nat \<Rightarrow> bool) \<Rightarrow> duration \<Rightarrow> 64 word \<Rightarrow> nat \<Rightarrow> nat \<Rightarrow> poll_result option" where
  "waitForAPI_loop ping d i calls slept =
     (if ping calls then Some \<lparr>poll_err = None, pings = Suc calls, sleeps = slept\<rparr>
      else let i' = i + 1 in
        if d <s i' * step
        then Some \<lparr>poll_err = Some ping_timeout, pings = Suc calls, sleeps = slept\<rparr>
        else waitForAPI_loop ping d i' (Suc calls) (Suc slept))"

declare waitForAPI_loop.simps [code]

definition waitForAPI :: "(nat \<Rightarrow> bool) \<Rightarrow> duration \<Rightarrow> poll_result option" where
  "waitForAPI ping d = waitForAPI_loop ping d 0 0 0"

text \<open>
  The number of calls the poller allows itself for a deadline \<open>d\<close>:
  \<open>max(0, floor(d / 50ms)) + 1\<close>.
\<close>

definition attempts :: "duration \<Rightarrow> nat" where
  "attempts d = nat (max 0 (sint d div 50000000)) + 1"

subsection \<open>The resource tracker\<close>

text \<open>
  The four closures that \<^verbatim>\<open>New\<close> hands to \<^verbatim>\<open>deferF.append\<close>: \<^verbatim>\<open>proxyGroup.Wait\<close>,
  \<^verbatim>\<open>d.StopWithError\<close>, \<^verbatim>\<open>dockerAPI.Close\<close> and \<^verbatim>\<open>listener.Close\<close>.
\<close>

datatype release_action = GroupWait | DaemonStop | ClientClose | ListenerClose

text \<open>What \<^verbatim>\<open>New\<close> obtains from the operating system while it runs.\<close>

datatype resource =
    WorkDir string
  | DaemonProcess
  | ApiClient
  | TempFile string
  | Listener string

text \<open>
  The observable calls of a run, in program order: a resource obtained, a release action
  handed to the tracker, a resource given back directly (\<^verbatim>\<open>f.Close(); os.Remove\<close>), a
  call of the aggregate release function, a release action run by it, and the start of
  the accept loop.
\<close>

datatype event =
    Acquired resource
  | Registered release_action
  | Discarded resource
  | ReleaseAll
  | Ran release_action
  | StartedAcceptLoop

text \<open>
  Modelled from the spec: the type \<^verbatim>\<open>multiCloser\<close> is declared in another file of the
  package. The spec (3, 4.1): the tracker is an "ordered sequence of zero-argument
  release actions", an "internal ordered list".
\<close>

record multiCloser =
  fns :: "release_action list"

text \<open>
  The state of a run of \<^verbatim>\<open>New\<close>: the tracker \<^verbatim>\<open>deferF\<close> and the calls made so far.
\<close>

record state =
  deferF :: multiCloser
  trace :: "event list"

definition init_state :: state where
  "init_state = \<lparr>deferF = \<lparr>fns = []\<rparr>, trace = []\<rparr>"

text \<open>
  Modelled from the spec: the method \<^verbatim>\<open>multiCloser.append\<close>, declared with the type in
  another file of the package. The spec (4.1): "acquire(releaseFn) appends a release
  action to an internal ordered list".
\<close>

definition append_fn :: "release_action \<Rightarrow> state \<Rightarrow> state" where
  "append_fn f st =
     st\<lparr>deferF := (deferF st)\<lparr>fns := fns (deferF st) @ [f]\<rparr>,
        trace := trace st @ [Registered f]\<rparr>"

text \<open>
  Modelled from the spec: the order in which the aggregate release function of the absent
  \<^verbatim>\<open>multiCloser\<close> runs the actions. The spec (4.1): "invokes every registered action in
  reverse registration order".
\<close>

definition release_order :: "multiCloser \<Rightarrow> release_action list" where
  "release_order mc = rev (fns mc)"

text \<open>
  Modelled from the spec: the function returned by the absent \<^verbatim>\<open>multiCloser.F\<close>, called
  once. The spec (4.1): "releaseAll() invokes every registered action in reverse
  registration order, continuing through individual action failures (collecting but not
  aborting on them), and becomes a no-op on any subsequent call". \<open>rel a\<close> is what the
  action \<open>a\<close> returns when it is run. The result is the list of the errors collected; the
  Go function returns nil when there is none.
\<close>

definition F :: "(release_action \<Rightarrow> error option) \<Rightarrow> state \<Rightarrow> error list \<times> state" where
  "F rel st =
     (let acts = release_order (deferF st)
      in (List.map_filter rel acts,
          st\<lparr>deferF := (deferF st)\<lparr>fns := []\<rparr>,
             trace := trace st @ ReleaseAll # map Ran acts\<rparr>))"

subsection \<open>The bootstrap\<close>

record backend =
  address :: string
  rootless :: bool
  isDockerd :: bool
  unsupportedFeatures :: "string list"

record moby =
  name :: string
  rootless :: bool
  unsupported :: "string list"

record BackendConfig =
  ConfigFile :: string

text \<open>
  The results of the calls \<^verbatim>\<open>New\<close> makes, one field per call site, in program order.
  \<open>MkdirTemp\<close> and \<open>CreateTemp\<close> give the path created, \<open>Listen\<close> gives
  \<^verbatim>\<open>listener.Addr().String()\<close> of the listener created, \<open>Ping\<close> is the health check as
  \<open>waitForAPI_loop\<close> takes it, and \<open>formatLogs\<close> is \<^verbatim>\<open>formatLogs(cfg.Logs)\<close> at the
  moment of the failure. The translation of the buildkit configuration into the daemon's
  (lines 79 to 98) and the daemon's flags (lines 133 to 140) only feed \<^verbatim>\<open>json.Marshal\<close>,
  \<^verbatim>\<open>os.WriteFile\<close> and \<^verbatim>\<open>StartWithError\<close>, whose results are given here.
\<close>

record outcomes =
  requireRoot :: "error option"
  LoadFile :: "error option"
  Marshal :: "error option"
  MkdirTemp :: "error + string"
  NewDaemon :: "error option"
  WriteFile :: "error option"
  StartWithError :: "error option"
  waitUnix :: "error option"
  NewClientWithOpts :: "error option"
  Ping :: "nat \<Rightarrow> bool"
  CreateTemp :: "error + string"
  Listen :: "error + string"
  formatLogs :: string

text \<open>The closure \<^verbatim>\<open>deferF.F()\<close>, the only teardown function \<^verbatim>\<open>New\<close> ever returns.\<close>

datatype teardown = DeferF

type_synonym new_result = "backend option \<times> teardown option \<times> error option"

definition acquire :: "resource \<Rightarrow> state \<Rightarrow> state" where
  "acquire r st = st\<lparr>trace := trace st @ [Acquired r]\<rparr>"

definition discard :: "resource \<Rightarrow> state \<Rightarrow> state" where
  "discard r st = st\<lparr>trace := trace st @ [Discarded r]\<rparr>"

definition start_accept_loop :: "state \<Rightarrow> state" where
  "start_accept_loop st = st\<lparr>trace := trace st @ [StartedAcceptLoop]\<rparr>"

text \<open>
  Lines 115 to 214, the part of \<^verbatim>\<open>New\<close> that runs under the deferred function. The
  result is the triple of named results as the \<^verbatim>\<open>return\<close> statement leaves it: the
  statement at line 168 is a bare \<^verbatim>\<open>return\<close>, which keeps \<open>cl\<close> as line 106 set it.
  \<open>None\<close> is a run in which \<^verbatim>\<open>waitForAPI\<close> does not return.
\<close>

definition New_body ::
  "moby \<Rightarrow> BackendConfig \<Rightarrow> outcomes \<Rightarrow> teardown option \<Rightarrow> state \<Rightarrow> (new_result \<times> state) option"
where
  "New_body c cfg w cl st0 =
    (let st1 = append_fn GroupWait st0 in
     case MkdirTemp w of
       Inl e \<Rightarrow> Some ((None, None, Some e), st1)
     | Inr workDir \<Rightarrow>
    (let st2 = acquire (WorkDir workDir) st1 in
     case NewDaemon w of
       Some e \<Rightarrow> Some ((None, None,
                  Some (ErrorsErrorf ''new daemon error: %q, %s'' e (formatLogs w))), st2)
     | None \<Rightarrow>
     case WriteFile w of
       Some e \<Rightarrow> Some ((None, None, Some e), st2)
     | None \<Rightarrow>
     case StartWithError w of
       Some e \<Rightarrow> Some ((None, None, Some e), st2)
     | None \<Rightarrow>
    (let st3 = append_fn DaemonStop (acquire DaemonProcess st2) in
     case waitUnix w of
       Some e \<Rightarrow> Some ((None, None,
                  Some (ErrorsErrorf ''dockerd did not start up: %q, %s'' e (formatLogs w))), st3)
     | None \<Rightarrow>
     case NewClientWithOpts w of
       Some e \<Rightarrow> Some ((None, None, Some e), st3)
     | None \<Rightarrow>
    (let st4 = append_fn ClientClose (acquire ApiClient st3) in
     case waitForAPI (Ping w) (5 * second) of
       None \<Rightarrow> None
     | Some r \<Rightarrow>
     case poll_err r of
       Some e \<Rightarrow> Some ((None, None,
                  Some (ErrorsWrapf e ''dockerd client api timed out: %s'' [formatLogs w])), st4)
     | None \<Rightarrow>
     case CreateTemp w of
       Inl e \<Rightarrow> Some ((None, cl, Some e), st4)
     | Inr localPath \<Rightarrow>
    (let st5 = discard (TempFile localPath) (acquire (TempFile localPath) st4) in
     case Listen w of
       Inl e \<Rightarrow> Some ((None, None,
                 Some (ErrorsWrapf e ''dockerd listener error: %s'' [formatLogs w])), st5)
     | Inr addr \<Rightarrow>
    (let st6 = append_fn ListenerClose (acquire (Listener addr) st5);
         st7 = start_accept_loop st6
     in Some ((Some \<lparr>address = ''unix://'' @ addr,
                     rootless = moby.rootless c,
                     isDockerd = True,
                     unsupportedFeatures = unsupported c\<rparr>, cl, None), st7)))))))"

text \<open>
  Lines 108 to 113, the deferred function: it runs after the results are set; on an error
  it calls \<^verbatim>\<open>deferF.F()()\<close>, drops what that call returns, and sets \<open>cl\<close> to nil.
\<close>

definition New_deferred ::
  "(release_action \<Rightarrow> error option) \<Rightarrow> new_result \<times> state \<Rightarrow> new_result \<times> state" where
  "New_deferred rel r =
    (case r of ((b, cl, err), st) \<Rightarrow>
       if err \<noteq> None then ((b, None, err), snd (F rel st)) else ((b, cl, err), st))"

text \<open>
  \<^verbatim>\<open>moby.New\<close>. The first three steps return before the tracker and the deferred
  function exist.
\<close>

definition New ::
  "moby \<Rightarrow> BackendConfig \<Rightarrow> outcomes \<Rightarrow> (release_action \<Rightarrow> error option) \<Rightarrow>
     (new_result \<times> state) option" where
  "New c cfg w rel =
    (case requireRoot w of
       Some e \<Rightarrow> Some ((None, None, Some e), init_state)
     | None \<Rightarrow>
     case LoadFile w of
       Some e \<Rightarrow> Some ((None, None,
                  Some (ErrorsWrapf e ''failed to load buildkit config file %s'' [ConfigFile cfg])),
                  init_state)
     | None \<Rightarrow>
     case Marshal w of
       Some e \<Rightarrow> Some ((None, None,
                  Some (ErrorsWrapf e ''failed to marshal dockerd config'' [])), init_state)
     | None \<Rightarrow>
    (let st = init_state\<lparr>deferF := \<lparr>fns = []\<rparr>\<rparr>;
         cl = Some DeferF
     in map_option (New_deferred rel) (New_body c cfg w cl st)))"

text \<open>Calling the teardown function that \<^verbatim>\<open>New\<close> returned: \<open>cl\<close> is \<^verbatim>\<open>deferF.F()\<close>.\<close>

definition call_teardown ::
  "teardown \<Rightarrow> (release_action \<Rightarrow> error option) \<Rightarrow> state \<Rightarrow> error list \<times> state" where
  "call_teardown cl rel st = (case cl of DeferF \<Rightarrow> F rel st)"

text \<open>Reading a trace: the actions registered, the actions run, the calls of the release function.\<close>

definition registered :: "event list \<Rightarrow> release_action list" where
  "registered tr = List.map_filter (\<lambda>ev. case ev of Registered a \<Rightarrow> Some a | _ \<Rightarrow> None) tr"

definition executed :: "event list \<Rightarrow> release_action list" where
  "executed tr = List.map_filter (\<lambda>ev. case ev of Ran a \<Rightarrow> Some a | _ \<Rightarrow> None) tr"

definition release_calls :: "event list \<Rightarrow> nat" where
  "release_calls tr = length (filter (\<lambda>ev. ev = ReleaseAll) tr)"

text \<open>
  A resource is given back by the run of its release action or by a direct removal.
  \<^verbatim>\<open>proxyGroup.Wait\<close> gives nothing back: it waits for the relay's goroutines.
\<close>

fun releases :: "release_action \<Rightarrow> resource \<Rightarrow> bool" where
  "releases DaemonStop DaemonProcess = True"
| "releases ClientClose ApiClient = True"
| "releases ListenerClose (Listener a) = True"
| "releases _ _ = False"

definition gives_back :: "resource \<Rightarrow> event \<Rightarrow> bool" where
  "gives_back r ev = (case ev of Ran a \<Rightarrow> releases a r | Discarded r' \<Rightarrow> r' = r | _ \<Rightarrow> False)"

definition acquired :: "event list \<Rightarrow> resource list" where
  "acquired tr = List.map_filter (\<lambda>ev. case ev of Acquired r \<Rightarrow> Some r | _ \<Rightarrow> None) tr"

definition leaked :: "event list \<Rightarrow> resource list" where
  "leaked tr = filter (\<lambda>r. \<not> list_ex (gives_back r) tr) (acquired tr)"

text \<open>
  The steps of the bootstrap in the words of the spec (4.3, 7): each call that can fail,
  in program order, with the error the caller sees when it is the one that fails. A
  second description of \<open>New\<close>, to compare it with.
\<close>

datatype bootstrap_step =
    StepRequireRoot | StepLoadFile | StepMarshal | StepMkdirTemp | StepNewDaemon
  | StepWriteFile | StepStart | StepWaitUnix | StepNewClient | StepWaitForAPI
  | StepCreateTemp | StepListen

definition bootstrap_steps :: "bootstrap_step list" where
  "bootstrap_steps =
     [StepRequireRoot, StepLoadFile, StepMarshal, StepMkdirTemp, StepNewDaemon,
      StepWriteFile, StepStart, StepWaitUnix, StepNewClient, StepWaitForAPI,
      StepCreateTemp, StepListen]"

fun step_error :: "BackendConfig \<Rightarrow> outcomes \<Rightarrow> bootstrap_step \<Rightarrow> error option" where
  "step_error cfg w StepRequireRoot = requireRoot w"
| "step_error cfg w StepLoadFile =
     map_option (\<lambda>e. ErrorsWrapf e ''failed to load buildkit config file %s'' [ConfigFile cfg])
       (LoadFile w)"
| "step_error cfg w StepMarshal =
     map_option (\<lambda>e. ErrorsWrapf e ''failed to marshal dockerd config'' []) (Marshal w)"
| "step_error cfg w StepMkdirTemp = (case MkdirTemp w of Inl e \<Rightarrow> Some e | Inr _ \<Rightarrow> None)"
| "step_error cfg w StepNewDaemon =
     map_option (\<lambda>e. ErrorsErrorf ''new daemon error: %q, %s'' e (formatLogs w)) (NewDaemon w)"
| "step_error cfg w StepWriteFile = WriteFile w"
| "step_error cfg w StepStart = StartWithError w"
| "step_error cfg w StepWaitUnix =
     map_option (\<lambda>e. ErrorsErrorf ''dockerd did not start up: %q, %s'' e (formatLogs w))
       (waitUnix w)"
| "step_error cfg w StepNewClient = NewClientWithOpts w"
| "step_error cfg w StepWaitForAPI =
     (if list_ex (Ping w) [0..<attempts (5 * second)] then None
      else Some (ErrorsWrapf ping_timeout ''dockerd client api timed out: %s'' [formatLogs w]))"
| "step_error cfg w StepCreateTemp = (case CreateTemp w of Inl e \<Rightarrow> Some e | Inr _ \<Rightarrow> None)"
| "step_error cfg w StepListen =
     (case Listen w of
        Inl e \<Rightarrow> Some (ErrorsWrapf e ''dockerd listener error: %s'' [formatLogs w])
      | Inr _ \<Rightarrow> None)"

definition first_failure :: "BackendConfig \<Rightarrow> outcomes \<Rightarrow> bootstrap_step option" where
  "first_failure cfg w = List.find (\<lambda>s. step_error cfg w s \<noteq> None) bootstrap_steps"

text \<open>The steps that run before line 105 creates the tracker.\<close>

definition before_tracker :: "bootstrap_step \<Rightarrow> bool" where
  "before_tracker s = (s = StepRequireRoot \<or> s = StepLoadFile \<or> s = StepMarshal)"

subsection \<open>The relay\<close>

text \<open>
  The two ends the relay connects: \<^verbatim>\<open>tmpConn\<close>, a connection accepted on the local
  listener, and \<^verbatim>\<open>conn\<close>, the stream \<^verbatim>\<open>DialHijack\<close> opened into the daemon.
\<close>

datatype conn = LocalConn nat | BackendStream nat

text \<open>
  \<^verbatim>\<open>io.Copy(dst, src)\<close> returns a nil error when \<open>src\<close> reaches end-of-stream, and the
  first read or write error otherwise.
\<close>

datatype copy_outcome = CopyEOF | CopyFailed error

datatype conn_op = Close conn | CloseWrite conn

record task_result =
  ops :: "conn_op list"
  task_err :: "error option"

text \<open>
  The two goroutines of lines 192 to 205, for the pair \<open>tmpConn\<close>, \<open>conn\<close>. \<open>out\<close> is what
  \<^verbatim>\<open>io.Copy\<close> returns and \<open>close c\<close> what \<^verbatim>\<open>c.Close()\<close> returns.
\<close>

definition local_to_backend ::
  "conn \<Rightarrow> conn \<Rightarrow> copy_outcome \<Rightarrow> (conn \<Rightarrow> error option) \<Rightarrow> task_result" where
  "local_to_backend tmpConn conn out close =
     (case out of
        CopyFailed e \<Rightarrow> \<lparr>ops = [], task_err = Some e\<rparr>
      | CopyEOF \<Rightarrow> \<lparr>ops = [Close tmpConn], task_err = close tmpConn\<rparr>)"

definition backend_to_local ::
  "conn \<Rightarrow> conn \<Rightarrow> copy_outcome \<Rightarrow> (conn \<Rightarrow> error option) \<Rightarrow> task_result" where
  "backend_to_local tmpConn conn out close =
     (case out of
        CopyFailed e \<Rightarrow> \<lparr>ops = [], task_err = Some e\<rparr>
      | CopyEOF \<Rightarrow> \<lparr>ops = [Close conn], task_err = close conn\<rparr>)"

datatype task = LocalToBackend conn conn | BackendToLocal conn conn

fun run_task :: "task \<Rightarrow> copy_outcome \<Rightarrow> (conn \<Rightarrow> error option) \<Rightarrow> task_result" where
  "run_task (LocalToBackend tmpConn conn) out close = local_to_backend tmpConn conn out close"
| "run_task (BackendToLocal tmpConn conn) out close = backend_to_local tmpConn conn out close"

text \<open>The connection a task reads from, the one it writes to, and the other task of its pair.\<close>

fun reads_from :: "task \<Rightarrow> conn" where
  "reads_from (LocalToBackend tmpConn conn) = tmpConn"
| "reads_from (BackendToLocal tmpConn conn) = conn"

fun writes_to :: "task \<Rightarrow> conn" where
  "writes_to (LocalToBackend tmpConn conn) = conn"
| "writes_to (BackendToLocal tmpConn conn) = tmpConn"

fun opposite :: "task \<Rightarrow> task" where
  "opposite (LocalToBackend tmpConn conn) = BackendToLocal tmpConn conn"
| "opposite (BackendToLocal tmpConn conn) = LocalToBackend tmpConn conn"

text \<open>
  One turn of the accept loop (lines 182 to 205). \<open>a\<close> is what \<^verbatim>\<open>listener.Accept\<close>
  returns and \<open>d\<close> what \<^verbatim>\<open>DialHijack\<close> returns if it is called. The turn either starts
  two goroutines and goes round again, or returns from the loop's goroutine.
\<close>

type_synonym accept_outcome = "error + conn"
type_synonym dial_outcome = "error + conn"

datatype turn = Continue "task list" | Return "error option"

definition accept_turn :: "accept_outcome \<Rightarrow> dial_outcome \<Rightarrow> turn" where
  "accept_turn a d =
     (case a of
        Inl e \<Rightarrow> Return None
      | Inr tmpConn \<Rightarrow>
          (case d of
             Inl e \<Rightarrow> Return (Some e)
           | Inr conn \<Rightarrow> Continue [LocalToBackend tmpConn conn, BackendToLocal tmpConn conn]))"

text \<open>
  The accept loop on a finite script of what \<^verbatim>\<open>Accept\<close> and \<^verbatim>\<open>DialHijack\<close> return, turn
  by turn. The result is the goroutines started and how the loop ended: \<open>Some r\<close> when its
  goroutine returned \<open>r\<close>, \<open>None\<close> when the script is used up and the loop is blocked in
  \<^verbatim>\<open>Accept\<close>.
\<close>

fun accept_loop ::
  "(accept_outcome \<times> dial_outcome) list \<Rightarrow> task list \<Rightarrow> task list \<times> error option option" where
  "accept_loop [] started = (started, None)"
| "accept_loop ((a, d) # script) started =
     (case accept_turn a d of
        Return r \<Rightarrow> (started, Some r)
      | Continue ts \<Rightarrow> accept_loop script (started @ ts))"

text \<open>The goroutines a script asks for when every turn of it is served.\<close>

fun served :: "accept_outcome \<times> dial_outcome \<Rightarrow> task list" where
  "served (Inr tmpConn, Inr conn) = [LocalToBackend tmpConn conn, BackendToLocal tmpConn conn]"
| "served _ = []"

definition accepted_and_dialled :: "accept_outcome \<times> dial_outcome \<Rightarrow> bool" where
  "accepted_and_dialled t = (case t of (Inr _, Inr _) \<Rightarrow> True | _ \<Rightarrow> False)"

subsection \<open>The relay and the teardown, interleaved\<close>

text \<open>
  After a successful \<^verbatim>\<open>New\<close> the accept loop, the copy goroutines and the caller run
  concurrently. The state below holds what matters for their order: whether the listener
  has been closed, whether the accept loop's goroutine has returned (and what), the copy
  goroutines that have not returned yet, and where a call of the teardown function
  stands. \<open>pending = None\<close>: not called yet; \<open>Some as\<close>: called, with the actions \<open>as\<close>
  still to run; \<open>Some []\<close>: returned.
\<close>

record relay =
  tracker :: multiCloser
  listener_closed :: bool
  loop_exit :: "error option option"
  forwarders :: "task list"
  pending :: "release_action list option"

definition relay_start :: "state \<Rightarrow> relay" where
  "relay_start st =
     \<lparr>tracker = deferF st, listener_closed = False, loop_exit = None, forwarders = [],
      pending = None\<rparr>"

definition release_effect :: "release_action \<Rightarrow> relay \<Rightarrow> relay" where
  "release_effect a s = (if a = ListenerClose then s\<lparr>listener_closed := True\<rparr> else s)"

text \<open>
  One step of one of the concurrent activities. A turn of the accept loop uses
  \<open>accept_turn\<close>, with any result of \<^verbatim>\<open>Accept\<close> and \<^verbatim>\<open>DialHijack\<close> (nothing is assumed
  about what \<^verbatim>\<open>Accept\<close> returns once the listener is closed). A copy goroutine returns.
  The caller calls the teardown function, which then runs its actions one by one in
  \<open>release_order\<close>. The accept loop and the copy goroutines are all started with
  \<^verbatim>\<open>proxyGroup.Go\<close> (lines 180, 192, 199), and \<^verbatim>\<open>proxyGroup.Wait\<close> is
  \<^verbatim>\<open>errgroup.Group.Wait\<close>: by the contract of that library it returns only when every
  goroutine started with \<^verbatim>\<open>Go\<close> has returned.
\<close>

inductive relay_step :: "relay \<Rightarrow> relay \<Rightarrow> bool" where
  turn_continue:
    "loop_exit s = None \<Longrightarrow> accept_turn a d = Continue ts \<Longrightarrow>
     relay_step s (s\<lparr>forwarders := forwarders s @ ts\<rparr>)"
| turn_return:
    "loop_exit s = None \<Longrightarrow> accept_turn a d = Return r \<Longrightarrow>
     relay_step s (s\<lparr>loop_exit := Some r\<rparr>)"
| forwarder_return:
    "t \<in> set (forwarders s) \<Longrightarrow>
     relay_step s (s\<lparr>forwarders := remove1 t (forwarders s)\<rparr>)"
| teardown_called:
    "pending s = None \<Longrightarrow>
     relay_step s (s\<lparr>pending := Some (release_order (tracker s))\<rparr>)"
| action_run:
    "pending s = Some (a # as) \<Longrightarrow>
     (a = GroupWait \<longrightarrow> loop_exit s \<noteq> None \<and> forwarders s = []) \<Longrightarrow>
     relay_step s (release_effect a (s\<lparr>pending := Some as\<rparr>))"

subsection \<open>Runs to state the results on\<close>

text \<open>
  The final state of a run of \<open>New\<close> that unwinds: the tracker has been emptied by the
  call of the release function, which ran the actions \<open>acts\<close> after the events \<open>tr\<close>.
\<close>

definition unwound :: "event list \<Rightarrow> release_action list \<Rightarrow> state" where
  "unwound tr acts = \<lparr>deferF = \<lparr>fns = []\<rparr>, trace = tr @ ReleaseAll # map Ran acts\<rparr>"

text \<open>The events of \<open>New\<close> up to each of its acquisitions.\<close>

definition tr_workdir :: "string \<Rightarrow> event list" where
  "tr_workdir wd = [Registered GroupWait, Acquired (WorkDir wd)]"

definition tr_daemon :: "string \<Rightarrow> event list" where
  "tr_daemon wd = tr_workdir wd @ [Acquired DaemonProcess, Registered DaemonStop]"

definition tr_client :: "string \<Rightarrow> event list" where
  "tr_client wd = tr_daemon wd @ [Acquired ApiClient, Registered ClientClose]"

definition tr_tempfile :: "string \<Rightarrow> string \<Rightarrow> event list" where
  "tr_tempfile wd p = tr_client wd @ [Acquired (TempFile p), Discarded (TempFile p)]"

definition tr_listener :: "string \<Rightarrow> string \<Rightarrow> string \<Rightarrow> event list" where
  "tr_listener wd p a =
     tr_tempfile wd p @ [Acquired (Listener a), Registered ListenerClose, StartedAcceptLoop]"

text \<open>
  The caller calls the teardown function again and again; \<open>rels\<close> gives, call by call,
  what the release actions would return.
\<close>

fun repeat_teardown ::
  "teardown \<Rightarrow> (release_action \<Rightarrow> error option) list \<Rightarrow> state \<Rightarrow> error list list \<times> state" where
  "repeat_teardown cl [] st = ([], st)"
| "repeat_teardown cl (rel # rels) st =
     (let (es, st') = call_teardown cl rel st;
          (ess, st'') = repeat_teardown cl rels st'
      in (es # ess, st''))"

text \<open>
  Concrete inputs. The second worker that \<^verbatim>\<open>InitDockerdWorker\<close> registers (its two
  feature constants are declared in another file and stand here under their
  identifiers), a configuration, a run in which every call succeeds and the third
  \<^verbatim>\<open>Ping\<close> is the first to answer, health checks that always, never and from the third
  call on succeed, a \<^verbatim>\<open>Close\<close> that succeeds, and release actions that all succeed or
  all fail.
\<close>

definition always_ready :: "nat \<Rightarrow> bool" where
  "always_ready k = True"

definition never_ready :: "nat \<Rightarrow> bool" where
  "never_ready k = False"

definition ready_at_third :: "nat \<Rightarrow> bool" where
  "ready_at_third k = (2 \<le> k)"

definition close_ok :: "conn \<Rightarrow> error option" where
  "close_ok c = None"

definition dockerd_containerd :: moby where
  "dockerd_containerd =
     \<lparr>name = ''dockerd-containerd'', rootless = False,
      unsupported = [''FeatureSecurityMode'', ''FeatureCNINetwork'']\<rparr>"

definition test_config :: BackendConfig where
  "test_config = \<lparr>ConfigFile = ''/etc/buildkit/buildkitd.toml''\<rparr>"

definition all_succeed :: outcomes where
  "all_succeed =
     \<lparr>requireRoot = None, LoadFile = None, Marshal = None,
      MkdirTemp = Inr ''/tmp/integration1'', NewDaemon = None, WriteFile = None,
      StartWithError = None, waitUnix = None, NewClientWithOpts = None,
      Ping = ready_at_third, CreateTemp = Inr ''/tmp/buildkit-integration2'',
      Listen = Inr ''/tmp/buildkit-integration2'', formatLogs = ''daemon logs''\<rparr>"

text \<open>The state in which \<open>New\<close> leaves the run \<open>all_succeed\<close>.\<close>

definition booted :: state where
  "booted =
     \<lparr>deferF = \<lparr>fns = [GroupWait, DaemonStop, ClientClose, ListenerClose]\<rparr>,
      trace = tr_listener ''/tmp/integration1'' ''/tmp/buildkit-integration2''
                ''/tmp/buildkit-integration2''\<rparr>"

definition release_ok :: "release_action \<Rightarrow> error option" where
  "release_ok a = None"

definition release_fails :: "release_action \<Rightarrow> error option" where
  "release_fails a = Some (Err ''release failed'')"

subsection \<open>The invariant of the relay\<close>

text \<open>
  The order in which the teardown function runs the four actions of a successful
  bootstrap, and what holds in every state the relay and the teardown can reach from
  there: the actions still to run are a suffix of that order, the listener is closed
  once its close has run, and every goroutine of the group has returned once the wait
  has run.
\<close>

definition relay_order :: "release_action list" where
  "relay_order = [ListenerClose, ClientClose, DaemonStop, GroupWait]"

definition relay_inv :: "relay \<Rightarrow> bool" where
  "relay_inv s =
     (release_order (tracker s) = relay_order \<and>
      (case pending s of
         None \<Rightarrow> True
       | Some p \<Rightarrow>
           suffix p relay_order \<and>
           (ListenerClose \<notin> set p \<longrightarrow> listener_closed s) \<and>
           (GroupWait \<notin> set p \<longrightarrow> loop_exit s \<noteq> None \<and> forwarders s = [])))"

text \<open>
  The state in which a relay started from \<open>st\<close> has been torn down: listener closed,
  accept loop returned with nil, no copy goroutine left, teardown function returned.
\<close>

definition drained :: "state \<Rightarrow> relay" where
  "drained st = \<lparr>tracker = deferF st, listener_closed = True, loop_exit = Some None,
     forwarders = [], pending = Some []\<rparr>"

section \<open>The readiness poller\<close>

lemma sint_step_mult:
  assumes "int n * 50000000 < 2 ^ 63"
  shows "sint (of_nat n * step :: 64 word) = int n * 50000000"
proof -
  have eq: "of_nat n * step = (word_of_int (int n * 50000000) :: 64 word)"
    by (simp add: step_def millisecond_def)
  have rng: "- (2 ^ 63) \<le> int n * 50000000" "int n * 50000000 < 2 ^ 63"
    using assms by simp_all
  have "sint (word_of_int (int n * 50000000) :: 64 word) = signed_take_bit 63 (int n * 50000000)"
    by (simp only: sint_sbintrunc') simp
  also have "\<dots> = int n * 50000000"
    using rng by (rule signed_take_bit_int_eq_self)
  finally show ?thesis by (simp only: eq)
qed

lemma div_step_bounds:
  fixes x :: int
  shows "(x div 50000000) * 50000000 \<le> x" and "x < (x div 50000000) * 50000000 + 50000000"
proof -
  have "x = (x div 50000000) * 50000000 + x mod 50000000" by simp
  moreover have "0 \<le> x mod 50000000" "x mod 50000000 < 50000000" by simp_all
  ultimately show "(x div 50000000) * 50000000 \<le> x"
    and "x < (x div 50000000) * 50000000 + 50000000" by linarith+
qed

lemma succ_word: "(of_nat n + 1 :: 64 word) = of_nat (Suc n)"
  by simp

text \<open>While fewer than \<open>attempts d\<close> calls have failed, the deadline test is false.\<close>

lemma not_expired:
  assumes nov: "sint d < 2 ^ 63 - 50000000" and lt: "Suc n < attempts d"
  shows "\<not> d <s (of_nat n + 1) * step"
proof -
  have "int (Suc n) \<le> sint d div 50000000"
    using lt by (simp add: attempts_def)
  then have "int (Suc n) * 50000000 \<le> (sint d div 50000000) * 50000000"
    by (rule mult_right_mono) simp
  with div_step_bounds(1) [of "sint d"]
  have le: "int (Suc n) * 50000000 \<le> sint d" by (rule order_trans [rotated])
  have "sint d < 2 ^ 63" using nov by simp
  with le have "int (Suc n) * 50000000 < 2 ^ 63" by (rule le_less_trans)
  then have "sint (of_nat (Suc n) * step :: 64 word) = int (Suc n) * 50000000"
    by (rule sint_step_mult)
  with le show ?thesis by (simp only: word_sless_alt succ_word)
qed

text \<open>After the failed call number \<open>attempts d\<close> the deadline test is true.\<close>

lemma expired:
  assumes nov: "sint d < 2 ^ 63 - 50000000" and eq: "Suc n = attempts d"
  shows "d <s (of_nat n + 1) * step"
proof -
  define q where "q = sint d div 50000000"
  define m where "m = int (Suc n) * 50000000"
  have b: "q * 50000000 \<le> sint d" "sint d < q * 50000000 + 50000000"
    unfolding q_def by (rule div_step_bounds)+
  have n: "int (Suc n) = max 0 q + 1"
    using eq by (simp add: attempts_def q_def)
  have m: "m = max 0 q * 50000000 + 50000000"
    unfolding m_def n by (simp add: algebra_simps)
  have gt: "sint d < m"
  proof (cases "0 \<le> q")
    case True
    then show ?thesis using b m by simp
  next
    case False
    then have "q * 50000000 + 50000000 \<le> 0" by simp
    with b m False show ?thesis by simp
  qed
  have "m \<le> max (sint d) 0 + 50000000"
  proof (cases "0 \<le> q")
    case True
    then show ?thesis using b m by simp
  next
    case False
    then show ?thesis using m by simp
  qed
  with nov have "m < 2 ^ 63" by simp
  then have "sint (of_nat (Suc n) * step :: 64 word) = m"
    unfolding m_def by (rule sint_step_mult)
  with gt show ?thesis by (simp only: word_sless_alt succ_word)
qed

lemma loop_success:
  assumes nov: "sint d < 2 ^ 63 - 50000000"
  shows "\<forall>k<m. \<not> ping (n + k) \<Longrightarrow> ping (n + m) \<Longrightarrow> n + m < attempts d \<Longrightarrow>
    waitForAPI_loop ping d (of_nat n) n s =
      Some \<lparr>poll_err = None, pings = Suc (n + m), sleeps = s + m\<rparr>"
proof (induction m arbitrary: n s)
  case 0
  then show ?case by (subst waitForAPI_loop.simps) simp
next
  case (Suc m)
  from Suc.prems(1) have np: "\<not> ping n" by force
  from Suc.prems(3) have "Suc n < attempts d" by simp
  then have ne: "\<not> d <s (of_nat n + 1) * step" by (rule not_expired [OF nov])
  have "waitForAPI_loop ping d (of_nat (Suc n)) (Suc n) (Suc s) =
      Some \<lparr>poll_err = None, pings = Suc (Suc n + m), sleeps = s + Suc m\<rparr>"
  proof -
    have "\<forall>k<m. \<not> ping (Suc n + k)" using Suc.prems(1) by force
    moreover have "ping (Suc n + m)" using Suc.prems(2) by simp
    moreover have "Suc n + m < attempts d" using Suc.prems(3) by simp
    ultimately show ?thesis using Suc.IH [of "Suc n" "Suc s"] by simp
  qed
  then show ?case using np ne
    by (subst waitForAPI_loop.simps) (simp add: Let_def succ_word del: of_nat_Suc)
qed

lemma loop_timeout:
  assumes nov: "sint d < 2 ^ 63 - 50000000"
  shows "\<forall>k<Suc m. \<not> ping (n + k) \<Longrightarrow> n + Suc m = attempts d \<Longrightarrow>
    waitForAPI_loop ping d (of_nat n) n s =
      Some \<lparr>poll_err = Some ping_timeout, pings = attempts d, sleeps = s + m\<rparr>"
proof (induction m arbitrary: n s)
  case 0
  from 0(1) have np: "\<not> ping n" by force
  from 0(2) have "Suc n = attempts d" by simp
  then have "d <s (of_nat n + 1) * step" by (rule expired [OF nov])
  then show ?case using np 0(2)
    by (subst waitForAPI_loop.simps) (simp add: Let_def)
next
  case (Suc m)
  from Suc.prems(1) have np: "\<not> ping n" by force
  from Suc.prems(2) have "Suc n < attempts d" by simp
  then have ne: "\<not> d <s (of_nat n + 1) * step" by (rule not_expired [OF nov])
  have "waitForAPI_loop ping d (of_nat (Suc n)) (Suc n) (Suc s) =
      Some \<lparr>poll_err = Some ping_timeout, pings = attempts d, sleeps = s + Suc m\<rparr>"
  proof -
    have "\<forall>k<Suc m. \<not> ping (Suc n + k)" using Suc.prems(1) by force
    moreover have "Suc n + Suc m = attempts d" using Suc.prems(2) by simp
    ultimately show ?thesis using Suc.IH [of "Suc n" "Suc s"] by simp
  qed
  then show ?case using np ne
    by (subst waitForAPI_loop.simps) (simp add: Let_def succ_word del: of_nat_Suc)
qed

text \<open>
  What \<open>waitForAPI\<close> returns when the product \<^verbatim>\<open>time.Duration(i)*step\<close> cannot overflow:
  it always returns, and the first successful call among the first \<open>attempts d\<close> decides.
\<close>

lemma waitForAPI_returns:
  assumes nov: "sint d < 2 ^ 63 - 50000000"
  shows "\<exists>r. waitForAPI ping d = Some r \<and>
    (poll_err r = None \<longleftrightarrow> (\<exists>k<attempts d. ping k)) \<and>
    (\<forall>k<attempts d. ping k \<and> (\<forall>j<k. \<not> ping j) \<longrightarrow>
        poll_err r = None \<and> pings r = Suc k \<and> sleeps r = k) \<and>
    ((\<forall>k<attempts d. \<not> ping k) \<longrightarrow>
        poll_err r = Some ping_timeout \<and> pings r = attempts d \<and> sleeps r = attempts d - 1)"
proof (cases "\<exists>k<attempts d. ping k")
  case True
  define k0 where "k0 = (LEAST k. ping k)"
  from True obtain k where k: "k < attempts d" "ping k" by blast
  have p0: "ping k0" unfolding k0_def using k(2) by (rule LeastI)
  have le: "k0 \<le> k" unfolding k0_def using k(2) by (rule Least_le)
  have mn: "\<forall>j<k0. \<not> ping j" unfolding k0_def using not_less_Least by blast
  have "waitForAPI_loop ping d (of_nat 0) 0 0 =
      Some \<lparr>poll_err = None, pings = Suc (0 + k0), sleeps = 0 + k0\<rparr>"
    using mn p0 le k(1) by (intro loop_success [OF nov]) simp_all
  then have r: "waitForAPI ping d = Some \<lparr>poll_err = None, pings = Suc k0, sleeps = k0\<rparr>"
    by (simp add: waitForAPI_def)
  have uniq: "k' = k0" if "ping k'" "\<forall>j<k'. \<not> ping j" for k'
    using that mn p0 by (meson linorder_neqE_nat)
  show ?thesis using r True uniq by auto
next
  case False
  obtain m where m: "attempts d = Suc m" by (simp add: attempts_def)
  have "waitForAPI_loop ping d (of_nat 0) 0 0 =
      Some \<lparr>poll_err = Some ping_timeout, pings = attempts d, sleeps = 0 + m\<rparr>"
    using False m by (intro loop_timeout [OF nov]) simp_all
  then have "waitForAPI ping d =
      Some \<lparr>poll_err = Some ping_timeout, pings = attempts d, sleeps = attempts d - 1\<rparr>"
    by (simp add: waitForAPI_def m)
  then show ?thesis using False by auto
qed

text \<open>With the largest deadline the test \<^verbatim>\<open>time.Duration(i)*step > d\<close> is never true.\<close>

lemma never_expires: "\<not> (9223372036854775807 :: 64 word) <s x"
proof -
  have "sint x < 2 ^ (LENGTH(64) - 1)" by (rule sint_lt)
  then have "sint x < 9223372036854775808" by simp
  then show ?thesis by (simp add: word_sless_alt)
qed

lemma loop_never_returns:
  assumes "waitForAPI_loop ping d i calls slept = Some y"
  shows "\<not> (d = 9223372036854775807 \<and> (\<forall>k. \<not> ping k))"
proof (rule waitForAPI_loop.raw_induct
    [where P = "\<lambda>ping d i calls slept y. \<not> (d = 9223372036854775807 \<and> (\<forall>k. \<not> ping k))",
      OF _ assms])
  fix f :: "(nat \<Rightarrow> bool) \<Rightarrow> duration \<Rightarrow> 64 word \<Rightarrow> nat \<Rightarrow> nat \<Rightarrow> poll_result option"
  fix ping d i calls slept y
  assume IH: "\<And>ping d i calls slept y. f ping d i calls slept = Some y \<Longrightarrow>
      \<not> (d = 9223372036854775807 \<and> (\<forall>k. \<not> ping k))"
  assume eq: "(if ping calls then Some \<lparr>poll_err = None, pings = Suc calls, sleeps = slept\<rparr>
      else let i' = i + 1 in
        if d <s i' * step
        then Some \<lparr>poll_err = Some ping_timeout, pings = Suc calls, sleeps = slept\<rparr>
        else f ping d i' (Suc calls) (Suc slept)) = Some y"
  show "\<not> (d = 9223372036854775807 \<and> (\<forall>k. \<not> ping k))"
  proof
    assume a: "d = 9223372036854775807 \<and> (\<forall>k. \<not> ping k)"
    with eq never_expires have "f ping d (i + 1) (Suc calls) (Suc slept) = Some y"
      by (simp add: Let_def)
    from IH [OF this] a show False by simp
  qed
qed

text \<open>
  C5, as stated, at two deadlines. At \<open>d = -50ms\<close> the claim's bound
  \<open>floor(d/50ms) + 1\<close> is 0, so the claim allows no call at all, while the code calls
  \<^verbatim>\<open>Ping\<close> once and returns nil when that call succeeds. At the largest \<^verbatim>\<open>int64\<close>
  deadline with a check that never succeeds the claim says \<open>waitForAPI\<close> terminates with
  an error, while the loop never returns: the product wraps around before it can exceed
  the deadline.
\<close>

theorem C5_waitForAPI_counterexample:
  "waitForAPI always_ready (- 50000000) = Some \<lparr>poll_err = None, pings = 1, sleeps = 0\<rparr> \<and>
   sint (- 50000000 :: duration) div 50000000 + 1 = 0 \<and>
   waitForAPI never_ready 9223372036854775807 = None"
proof -
  have "waitForAPI always_ready (- 50000000) =
      Some \<lparr>poll_err = None, pings = 1, sleeps = 0\<rparr>"
    by (simp add: waitForAPI_def waitForAPI_loop.simps always_ready_def)
  moreover have "sint (- 50000000 :: duration) div 50000000 + 1 = 0" by simp
  moreover have "waitForAPI never_ready 9223372036854775807 = None"
  proof (cases "waitForAPI never_ready 9223372036854775807")
    case None
    then show ?thesis .
  next
    case (Some y)
    then show ?thesis
      using loop_never_returns [of never_ready 9223372036854775807 0 0 0 y]
      by (simp add: waitForAPI_def never_ready_def)
  qed
  ultimately show ?thesis by simp
qed

text \<open>
  C5, amended. For every health check and every deadline \<open>d\<close> of at most
  \<open>MaxInt64 - 50ms\<close>, \<open>waitForAPI\<close> returns. With \<open>n = max(0, floor(d/50ms)) + 1\<close>, it
  returns nil if and only if the check succeeds on one of its first \<open>n\<close> calls; it
  returns at the first success, after \<open>k\<close> calls and \<open>k - 1\<close> sleeps when the first
  success is call \<open>k\<close> (no sleep when it is the first call); when no call among the first
  \<open>n\<close> succeeds it returns the error after exactly \<open>n\<close> calls and \<open>n - 1\<close> sleeps.
\<close>

theorem C5_waitForAPI_attempts:
  assumes "sint d < 2 ^ 63 - 50000000"
  shows "\<exists>r. waitForAPI ping d = Some r \<and>
    (poll_err r = None \<longleftrightarrow> (\<exists>k<attempts d. ping k)) \<and>
    (\<forall>k<attempts d. ping k \<and> (\<forall>j<k. \<not> ping j) \<longrightarrow>
        poll_err r = None \<and> pings r = Suc k \<and> sleeps r = k) \<and>
    ((\<forall>k<attempts d. \<not> ping k) \<longrightarrow>
        poll_err r = Some ping_timeout \<and> pings r = attempts d \<and> sleeps r = attempts d - 1)"
  using assms by (rule waitForAPI_returns)

text \<open>
  The deadline of the spec's example, 200ms: five calls and four sleeps when the check
  never succeeds, three calls and two sleeps when the third call succeeds, one call and
  no sleep when the first does.
\<close>

theorem C5_waitForAPI_attempts_witness:
  "sint (200000000 :: duration) < 2 ^ 63 - 50000000 \<and> attempts 200000000 = 5 \<and>
   waitForAPI never_ready 200000000 =
     Some \<lparr>poll_err = Some ping_timeout, pings = 5, sleeps = 4\<rparr> \<and>
   waitForAPI ready_at_third 200000000 = Some \<lparr>poll_err = None, pings = 3, sleeps = 2\<rparr> \<and>
   waitForAPI always_ready 200000000 = Some \<lparr>poll_err = None, pings = 1, sleeps = 0\<rparr>"
proof -
  have h: "sint (200000000 :: duration) < 2 ^ 63 - 50000000" by simp
  have a: "attempts 200000000 = 5" by (simp add: attempts_def)
  from C5_waitForAPI_attempts [OF h, of never_ready] a
  have 1: "waitForAPI never_ready 200000000 =
     Some \<lparr>poll_err = Some ping_timeout, pings = 5, sleeps = 4\<rparr>"
    by (auto simp: never_ready_def)
  from C5_waitForAPI_attempts [OF h, of ready_at_third] a
  obtain r where r: "waitForAPI ready_at_third 200000000 = Some r"
    "\<forall>k<5. ready_at_third k \<and> (\<forall>j<k. \<not> ready_at_third j) \<longrightarrow>
        poll_err r = None \<and> pings r = Suc k \<and> sleeps r = k" by auto
  from r(2) have "poll_err r = None \<and> pings r = Suc 2 \<and> sleeps r = 2"
    by (elim allE [of _ 2]) (simp add: ready_at_third_def)
  with r(1) have 2: "waitForAPI ready_at_third 200000000 =
      Some \<lparr>poll_err = None, pings = 3, sleeps = 2\<rparr>" by simp
  from C5_waitForAPI_attempts [OF h, of always_ready] a
  obtain r' where r': "waitForAPI always_ready 200000000 = Some r'"
    "\<forall>k<5. always_ready k \<and> (\<forall>j<k. \<not> always_ready j) \<longrightarrow>
        poll_err r' = None \<and> pings r' = Suc k \<and> sleeps r' = k" by auto
  from r'(2) have "poll_err r' = None \<and> pings r' = Suc 0 \<and> sleeps r' = 0"
    by (elim allE [of _ 0]) (simp add: always_ready_def)
  with r'(1) have 3: "waitForAPI always_ready 200000000 =
      Some \<lparr>poll_err = None, pings = 1, sleeps = 0\<rparr>" by simp
  show ?thesis using h a 1 2 3 by simp
qed

section \<open>The bootstrap, path by path\<close>

text \<open>
  The deadline that \<open>New\<close> passes to the poller, five seconds, is far from the overflow,
  so the poller returns there whatever the health check does.
\<close>

lemma five_seconds: "sint (5 * second) < 2 ^ 63 - 50000000"
  by (simp add: second_def millisecond_def)

lemma poll_5s:
  "\<exists>r. waitForAPI p (5 * second) = Some r \<and>
        poll_err r = (if list_ex p [0..<attempts (5 * second)] then None else Some ping_timeout)"
proof -
  from waitForAPI_returns [OF five_seconds, of p]
  obtain r where r: "waitForAPI p (5 * second) = Some r"
    "poll_err r = None \<longleftrightarrow> (\<exists>k<attempts (5 * second). p k)"
    "(\<forall>k<attempts (5 * second). \<not> p k) \<longrightarrow> poll_err r = Some ping_timeout"
    by auto
  have "list_ex p [0..<attempts (5 * second)] \<longleftrightarrow> (\<exists>k<attempts (5 * second). p k)"
    by (auto simp: list_ex_iff)
  with r show ?thesis by auto
qed

lemmas New_unfold = New_def New_body_def New_deferred_def F_def Let_def
  append_fn_def acquire_def discard_def start_accept_loop_def init_state_def release_order_def
  unwound_def tr_workdir_def tr_daemon_def tr_client_def tr_tempfile_def tr_listener_def

text \<open>
  Every run of \<open>New\<close> returns, along one of thirteen paths: one for each call that can
  fail, taken when the calls before it succeeded, and one for the run in which none
  fails. Each path fixes the three results and the final state.
\<close>

lemma New_cases [case_names RequireRoot LoadFile Marshal MkdirTemp NewDaemon WriteFile Start
    WaitUnix NewClient WaitForAPI CreateTemp Listen Success]:
  obtains
    e where "requireRoot w = Some e"
      "New c cfg w rel = Some ((None, None, Some e), init_state)"
  | e where "requireRoot w = None" "LoadFile w = Some e"
      "New c cfg w rel = Some ((None, None,
         Some (ErrorsWrapf e ''failed to load buildkit config file %s'' [ConfigFile cfg])),
         init_state)"
  | e where "requireRoot w = None" "LoadFile w = None" "Marshal w = Some e"
      "New c cfg w rel = Some ((None, None,
         Some (ErrorsWrapf e ''failed to marshal dockerd config'' [])), init_state)"
  | e where "requireRoot w = None" "LoadFile w = None" "Marshal w = None"
      "MkdirTemp w = Inl e"
      "New c cfg w rel = Some ((None, None, Some e),
         unwound [Registered GroupWait] [GroupWait])"
  | wd e where "requireRoot w = None" "LoadFile w = None" "Marshal w = None"
      "MkdirTemp w = Inr wd" "NewDaemon w = Some e"
      "New c cfg w rel = Some ((None, None,
         Some (ErrorsErrorf ''new daemon error: %q, %s'' e (formatLogs w))),
         unwound (tr_workdir wd) [GroupWait])"
  | wd e where "requireRoot w = None" "LoadFile w = None" "Marshal w = None"
      "MkdirTemp w = Inr wd" "NewDaemon w = None" "WriteFile w = Some e"
      "New c cfg w rel = Some ((None, None, Some e), unwound (tr_workdir wd) [GroupWait])"
  | wd e where "requireRoot w = None" "LoadFile w = None" "Marshal w = None"
      "MkdirTemp w = Inr wd" "NewDaemon w = None" "WriteFile w = None"
      "StartWithError w = Some e"
      "New c cfg w rel = Some ((None, None, Some e), unwound (tr_workdir wd) [GroupWait])"
  | wd e where "requireRoot w = None" "LoadFile w = None" "Marshal w = None"
      "MkdirTemp w = Inr wd" "NewDaemon w = None" "WriteFile w = None"
      "StartWithError w = None" "waitUnix w = Some e"
      "New c cfg w rel = Some ((None, None,
         Some (ErrorsErrorf ''dockerd did not start up: %q, %s'' e (formatLogs w))),
         unwound (tr_daemon wd) [DaemonStop, GroupWait])"
  | wd e where "requireRoot w = None" "LoadFile w = None" "Marshal w = None"
      "MkdirTemp w = Inr wd" "NewDaemon w = None" "WriteFile w = None"
      "StartWithError w = None" "waitUnix w = None" "NewClientWithOpts w = Some e"
      "New c cfg w rel = Some ((None, None, Some e),
         unwound (tr_daemon wd) [DaemonStop, GroupWait])"
  | wd where "requireRoot w = None" "LoadFile w = None" "Marshal w = None"
      "MkdirTemp w = Inr wd" "NewDaemon w = None" "WriteFile w = None"
      "StartWithError w = None" "waitUnix w = None" "NewClientWithOpts w = None"
      "\<not> list_ex (Ping w) [0..<attempts (5 * second)]"
      "New c cfg w rel = Some ((None, None,
         Some (ErrorsWrapf ping_timeout ''dockerd client api timed out: %s'' [formatLogs w])),
         unwound (tr_client wd) [ClientClose, DaemonStop, GroupWait])"
  | wd e where "requireRoot w = None" "LoadFile w = None" "Marshal w = None"
      "MkdirTemp w = Inr wd" "NewDaemon w = None" "WriteFile w = None"
      "StartWithError w = None" "waitUnix w = None" "NewClientWithOpts w = None"
      "list_ex (Ping w) [0..<attempts (5 * second)]" "CreateTemp w = Inl e"
      "New c cfg w rel = Some ((None, None, Some e),
         unwound (tr_client wd) [ClientClose, DaemonStop, GroupWait])"
  | wd p e where "requireRoot w = None" "LoadFile w = None" "Marshal w = None"
      "MkdirTemp w = Inr wd" "NewDaemon w = None" "WriteFile w = None"
      "StartWithError w = None" "waitUnix w = None" "NewClientWithOpts w = None"
      "list_ex (Ping w) [0..<attempts (5 * second)]" "CreateTemp w = Inr p"
      "Listen w = Inl e"
      "New c cfg w rel = Some ((None, None,
         Some (ErrorsWrapf e ''dockerd listener error: %s'' [formatLogs w])),
         unwound (tr_tempfile wd p) [ClientClose, DaemonStop, GroupWait])"
  | wd p a where "requireRoot w = None" "LoadFile w = None" "Marshal w = None"
      "MkdirTemp w = Inr wd" "NewDaemon w = None" "WriteFile w = None"
      "StartWithError w = None" "waitUnix w = None" "NewClientWithOpts w = None"
      "list_ex (Ping w) [0..<attempts (5 * second)]" "CreateTemp w = Inr p"
      "Listen w = Inr a"
      "New c cfg w rel = Some ((Some \<lparr>address = ''unix://'' @ a,
            rootless = moby.rootless c, isDockerd = True,
            unsupportedFeatures = unsupported c\<rparr>, Some DeferF, None),
         \<lparr>deferF = \<lparr>fns = [GroupWait, DaemonStop, ClientClose, ListenerClose]\<rparr>,
          trace = tr_listener wd p a\<rparr>)"
proof -
  obtain r where r: "waitForAPI (Ping w) (5 * second) = Some r"
    "poll_err r =
       (if list_ex (Ping w) [0..<attempts (5 * second)] then None else Some ping_timeout)"
    using poll_5s by blast
  show thesis
  proof (cases "requireRoot w")
    case (Some e)
    then show thesis by (intro that(1) [of e]) (simp_all add: New_unfold)
  next
    case s1: None
    show thesis
    proof (cases "LoadFile w")
      case (Some e)
      with s1 show thesis by (intro that(2) [of e]) (simp_all add: New_unfold)
    next
      case s2: None
      show thesis
      proof (cases "Marshal w")
        case (Some e)
        with s1 s2 show thesis by (intro that(3) [of e]) (simp_all add: New_unfold)
      next
        case s3: None
        show thesis
        proof (cases "MkdirTemp w")
          case (Inl e)
          with s1 s2 s3 show thesis by (intro that(4) [of e]) (simp_all add: New_unfold)
        next
          case s4: (Inr wd)
          show thesis
          proof (cases "NewDaemon w")
            case (Some e)
            with s1 s2 s3 s4 show thesis
              by (intro that(5) [of wd e]) (simp_all add: New_unfold)
          next
            case s5: None
            show thesis
            proof (cases "WriteFile w")
              case (Some e)
              with s1 s2 s3 s4 s5 show thesis
                by (intro that(6) [of wd e]) (simp_all add: New_unfold)
            next
              case s6: None
              show thesis
              proof (cases "StartWithError w")
                case (Some e)
                with s1 s2 s3 s4 s5 s6 show thesis
                  by (intro that(7) [of wd e]) (simp_all add: New_unfold)
              next
                case s7: None
                show thesis
                proof (cases "waitUnix w")
                  case (Some e)
                  with s1 s2 s3 s4 s5 s6 s7 show thesis
                    by (intro that(8) [of wd e]) (simp_all add: New_unfold)
                next
                  case s8: None
                  show thesis
                  proof (cases "NewClientWithOpts w")
                    case (Some e)
                    with s1 s2 s3 s4 s5 s6 s7 s8 show thesis
                      by (intro that(9) [of wd e]) (simp_all add: New_unfold)
                  next
                    case s9: None
                    show thesis
                    proof (cases "list_ex (Ping w) [0..<attempts (5 * second)]")
                      case False
                      with s1 s2 s3 s4 s5 s6 s7 s8 s9 r show thesis
                        by (intro that(10) [of wd]) (simp_all add: New_unfold)
                    next
                      case s10: True
                      show thesis
                      proof (cases "CreateTemp w")
                        case (Inl e)
                        with s1 s2 s3 s4 s5 s6 s7 s8 s9 s10 r show thesis
                          by (intro that(11) [of wd e]) (simp_all add: New_unfold)
                      next
                        case s11: (Inr p)
                        show thesis
                        proof (cases "Listen w")
                          case (Inl e)
                          with s1 s2 s3 s4 s5 s6 s7 s8 s9 s10 s11 r show thesis
                            by (intro that(12) [of wd p e]) (simp_all add: New_unfold)
                        next
                          case (Inr a)
                          with s1 s2 s3 s4 s5 s6 s7 s8 s9 s10 s11 r show thesis
                            by (intro that(13) [of wd p a]) (simp_all add: New_unfold)
                        qed
                      qed
                    qed
                  qed
                qed
              qed
            qed
          qed
        qed
      qed
    qed
  qed
qed


text \<open>Reading the traces of these paths.\<close>

lemma trace_unwound: "trace (unwound tr acts) = tr @ ReleaseAll # map Ran acts"
  by (simp add: unwound_def)

lemmas tr_defs = tr_workdir_def tr_daemon_def tr_client_def tr_tempfile_def tr_listener_def

lemmas trace_reads = registered_def executed_def release_calls_def acquired_def
  List.map_filter_simps

lemmas fixtures = all_succeed_def dockerd_containerd_def test_config_def release_ok_def
  release_fails_def

text \<open>Two concrete runs: every call succeeds; the daemon's socket never appears.\<close>

lemma ping_all_succeed: "list_ex (Ping all_succeed) [0..<attempts (5 * second)]"
proof -
  have "attempts (5 * second) = 101"
    by (simp add: attempts_def second_def millisecond_def)
  then have "(2::nat) \<in> set [0..<attempts (5 * second)]" by simp
  moreover have "Ping all_succeed 2" by (simp add: all_succeed_def ready_at_third_def)
  ultimately show ?thesis unfolding list_ex_iff by (rule bexI [rotated])
qed

lemma New_all_succeed:
  "New dockerd_containerd test_config all_succeed rel =
     Some ((Some \<lparr>address = ''unix:///tmp/buildkit-integration2'', rootless = False,
                  isDockerd = True,
                  unsupportedFeatures = [''FeatureSecurityMode'', ''FeatureCNINetwork'']\<rparr>,
            Some DeferF, None), booted)"
  using ping_all_succeed
  by (cases dockerd_containerd test_config all_succeed rel rule: New_cases)
    (simp_all add: fixtures booted_def)

lemma New_waitUnix_fails:
  "New dockerd_containerd test_config (all_succeed\<lparr>waitUnix := Some (Err ''timeout'')\<rparr>) rel =
     Some ((None, None,
            Some (ErrorsErrorf ''dockerd did not start up: %q, %s'' (Err ''timeout'')
                    ''daemon logs'')),
           unwound (tr_daemon ''/tmp/integration1'') [DaemonStop, GroupWait])"
  by (cases dockerd_containerd test_config "all_succeed\<lparr>waitUnix := Some (Err ''timeout'')\<rparr>"
      rel rule: New_cases)
    (simp_all add: fixtures)

section \<open>A failing step\<close>

lemma first_failure_unfold:
  "first_failure cfg w = List.find (\<lambda>s. step_error cfg w s \<noteq> None)
     [StepRequireRoot, StepLoadFile, StepMarshal, StepMkdirTemp, StepNewDaemon,
      StepWriteFile, StepStart, StepWaitUnix, StepNewClient, StepWaitForAPI,
      StepCreateTemp, StepListen]"
  by (simp add: first_failure_def bootstrap_steps_def)

text \<open>
  C1, as stated, at a run in which the first step fails: \<^verbatim>\<open>requireRoot\<close> returns an
  error and \<open>New\<close> returns it at line 71, before the tracker of line 105 exists. The
  caller gets no backend, no teardown function and the step's error, as the claim says,
  but the release function has not been called.
\<close>

theorem C1_New_failure_counterexample:
  "New dockerd_containerd test_config (all_succeed\<lparr>requireRoot := Some (Err ''not root'')\<rparr>)
       release_ok = Some ((None, None, Some (Err ''not root'')), init_state) \<and>
   first_failure test_config (all_succeed\<lparr>requireRoot := Some (Err ''not root'')\<rparr>) =
     Some StepRequireRoot \<and>
   release_calls (trace init_state) = 0"
  by (simp add: New_def fixtures init_state_def trace_reads first_failure_unfold)

text \<open>
  C1, amended. For every run of \<open>New\<close> in which some step fails, whatever the release
  actions return, \<open>New\<close> returns no backend, no teardown function and the error of the
  failing step (with the context the code wraps around it), never an error of the
  teardown. When the failing step comes after the creation of the tracker (from
  \<^verbatim>\<open>os.MkdirTemp\<close> on) the tracker's release function has been called exactly once
  before \<open>New\<close> returns; when it is one of the three steps before (\<^verbatim>\<open>requireRoot\<close>,
  \<^verbatim>\<open>config.LoadFile\<close>, \<^verbatim>\<open>json.Marshal\<close>) there is no tracker yet and no call.
\<close>

theorem C1_New_failure:
  assumes "first_failure cfg w = Some s"
  shows "\<exists>st. New c cfg w rel = Some ((None, None, step_error cfg w s), st) \<and>
           step_error cfg w s \<noteq> None \<and>
           release_calls (trace st) = (if before_tracker s then 0 else 1)"
proof (cases c cfg w rel rule: New_cases)
  case (RequireRoot e)
  then show ?thesis using assms
    by (auto simp: first_failure_unfold before_tracker_def init_state_def trace_reads)
next
  case (LoadFile e)
  then show ?thesis using assms
    by (auto simp: first_failure_unfold before_tracker_def init_state_def trace_reads)
next
  case (Marshal e)
  then show ?thesis using assms
    by (auto simp: first_failure_unfold before_tracker_def init_state_def trace_reads)
next
  case (MkdirTemp e)
  then show ?thesis using assms
    by (auto simp: first_failure_unfold before_tracker_def trace_unwound tr_defs trace_reads)
next
  case (NewDaemon wd e)
  then show ?thesis using assms
    by (auto simp: first_failure_unfold before_tracker_def trace_unwound tr_defs trace_reads)
next
  case (WriteFile wd e)
  then show ?thesis using assms
    by (auto simp: first_failure_unfold before_tracker_def trace_unwound tr_defs trace_reads)
next
  case (Start wd e)
  then show ?thesis using assms
    by (auto simp: first_failure_unfold before_tracker_def trace_unwound tr_defs trace_reads)
next
  case (WaitUnix wd e)
  then show ?thesis using assms
    by (auto simp: first_failure_unfold before_tracker_def trace_unwound tr_defs trace_reads)
next
  case (NewClient wd e)
  then show ?thesis using assms
    by (auto simp: first_failure_unfold before_tracker_def trace_unwound tr_defs trace_reads)
next
  case (WaitForAPI wd)
  then show ?thesis using assms
    by (auto simp: first_failure_unfold before_tracker_def trace_unwound tr_defs trace_reads)
next
  case (CreateTemp wd e)
  then show ?thesis using assms
    by (auto simp: first_failure_unfold before_tracker_def trace_unwound tr_defs trace_reads)
next
  case (Listen wd p e)
  then show ?thesis using assms
    by (auto simp: first_failure_unfold before_tracker_def trace_unwound tr_defs trace_reads)
next
  case (Success wd p a)
  then show ?thesis using assms
    by (auto simp: first_failure_unfold)
qed

text \<open>
  A run in which the daemon's socket never appears and every release action fails: the
  caller sees the error of \<^verbatim>\<open>waitUnix\<close>, and the release function has been called once.
\<close>

theorem C1_New_failure_witness:
  "first_failure test_config (all_succeed\<lparr>waitUnix := Some (Err ''timeout'')\<rparr>)
      = Some StepWaitUnix \<and>
   New dockerd_containerd test_config (all_succeed\<lparr>waitUnix := Some (Err ''timeout'')\<rparr>)
       release_fails =
     Some ((None, None,
            Some (ErrorsErrorf ''dockerd did not start up: %q, %s'' (Err ''timeout'')
                    ''daemon logs'')),
           unwound (tr_daemon ''/tmp/integration1'') [DaemonStop, GroupWait]) \<and>
   release_calls (trace (unwound (tr_daemon ''/tmp/integration1'') [DaemonStop, GroupWait])) = 1"
proof -
  have h: "first_failure test_config (all_succeed\<lparr>waitUnix := Some (Err ''timeout'')\<rparr>)
      = Some StepWaitUnix"
    by (simp add: first_failure_unfold fixtures)
  from C1_New_failure [OF h, of dockerd_containerd release_fails]
  obtain st where st:
    "New dockerd_containerd test_config (all_succeed\<lparr>waitUnix := Some (Err ''timeout'')\<rparr>)
       release_fails =
     Some ((None, None,
            step_error test_config (all_succeed\<lparr>waitUnix := Some (Err ''timeout'')\<rparr>)
              StepWaitUnix), st)"
    "release_calls (trace st) = (if before_tracker StepWaitUnix then 0 else 1)"
    by blast
  from st(1) New_waitUnix_fails [of release_fails]
  have "st = unwound (tr_daemon ''/tmp/integration1'') [DaemonStop, GroupWait]" by simp
  with st(2) have "release_calls
      (trace (unwound (tr_daemon ''/tmp/integration1'') [DaemonStop, GroupWait])) = 1"
    by (simp add: before_tracker_def)
  with h New_waitUnix_fails [of release_fails] show ?thesis by simp
qed

section \<open>The order of the release actions\<close>

lemma map_filter_app:
  "List.map_filter f (xs @ ys) = List.map_filter f xs @ List.map_filter f ys"
  by (simp add: List.map_filter_def)

lemma executed_map_Ran:
  "List.map_filter (\<lambda>ev. case ev of Ran a \<Rightarrow> Some a | _ \<Rightarrow> None) (map Ran as) = as"
  by (induction as) (simp_all add: List.map_filter_simps)

text \<open>A call of the release function runs the registered actions, last one first.\<close>

lemma executed_F:
  "executed (trace (snd (F rel st))) = executed (trace st) @ rev (fns (deferF st))"
  by (simp add: F_def Let_def executed_def map_filter_app List.map_filter_simps
      executed_map_Ran release_order_def)

lemma F_emptied: "fns (deferF (snd (F rel st))) = []"
  by (simp add: F_def Let_def)

lemma F_no_error: "fns (deferF st) = [] \<Longrightarrow> fst (F rel st) = []"
  by (simp add: F_def Let_def release_order_def List.map_filter_simps)

text \<open>
  C4. In every run of \<open>New\<close> the release actions are registered in the order task-group
  wait, daemon stop, client close, listener close, as far as the bootstrap got. When a
  step fails, the unwind has run exactly the actions registered, in the reverse of that
  order. When no step fails, nothing has been run yet and a call of the teardown
  function runs the four actions in the reverse order of their registration. No action
  is registered twice, so each runs exactly once. This holds whatever the actions
  return.
\<close>

theorem C4_release_order:
  assumes "New c cfg w rel = Some ((b, cl, err), st)"
  shows "prefix (registered (trace st)) [GroupWait, DaemonStop, ClientClose, ListenerClose] \<and>
    distinct (registered (trace st)) \<and>
    (err \<noteq> None \<longrightarrow> executed (trace st) = rev (registered (trace st))) \<and>
    (err = None \<longrightarrow>
       registered (trace st) = [GroupWait, DaemonStop, ClientClose, ListenerClose] \<and>
       executed (trace st) = [] \<and>
       (\<forall>rel'. executed (trace (snd (call_teardown DeferF rel' st))) =
                 rev (registered (trace st))))"
  using assms
  by (cases c cfg w rel rule: New_cases)
    (auto simp: trace_unwound tr_defs trace_reads init_state_def call_teardown_def F_def
      release_order_def)

text \<open>
  An unwind after two registrations, with release actions that fail, and a teardown
  after a successful bootstrap.
\<close>

theorem C4_release_order_witness:
  "New dockerd_containerd test_config (all_succeed\<lparr>waitUnix := Some (Err ''timeout'')\<rparr>)
       release_fails =
     Some ((None, None,
            Some (ErrorsErrorf ''dockerd did not start up: %q, %s'' (Err ''timeout'')
                    ''daemon logs'')),
           unwound (tr_daemon ''/tmp/integration1'') [DaemonStop, GroupWait]) \<and>
   registered (trace (unwound (tr_daemon ''/tmp/integration1'') [DaemonStop, GroupWait])) =
     [GroupWait, DaemonStop] \<and>
   executed (trace (unwound (tr_daemon ''/tmp/integration1'') [DaemonStop, GroupWait])) =
     [DaemonStop, GroupWait] \<and>
   New dockerd_containerd test_config all_succeed release_ok =
     Some ((Some \<lparr>address = ''unix:///tmp/buildkit-integration2'', rootless = False,
                  isDockerd = True,
                  unsupportedFeatures = [''FeatureSecurityMode'', ''FeatureCNINetwork'']\<rparr>,
            Some DeferF, None), booted) \<and>
   executed (trace (snd (call_teardown DeferF release_fails booted))) =
     [ListenerClose, ClientClose, DaemonStop, GroupWait]"
proof -
  let ?st = "unwound (tr_daemon ''/tmp/integration1'') [DaemonStop, GroupWait]"
  have r: "registered (trace ?st) = [GroupWait, DaemonStop]"
    by (simp add: trace_unwound tr_defs trace_reads)
  from C4_release_order [OF New_waitUnix_fails [of release_fails]] r
  have x: "executed (trace ?st) = [DaemonStop, GroupWait]" by simp
  from C4_release_order [OF New_all_succeed [of release_ok]]
  have "executed (trace (snd (call_teardown DeferF release_fails booted))) =
        [ListenerClose, ClientClose, DaemonStop, GroupWait]"
    by simp
  with New_all_succeed [of release_ok] New_waitUnix_fails [of release_fails] r x
  show ?thesis by simp
qed

section \<open>The working directory\<close>

text \<open>
  C6, on the code. A run in which \<^verbatim>\<open>os.MkdirTemp\<close> creates the working directory and
  the next call, \<^verbatim>\<open>dockerd.NewDaemon\<close>, fails. The directory has been acquired, the only
  action ever registered is the task-group wait, the unwind runs that action alone, and
  the directory is still there when \<open>New\<close> has returned: no release action is registered
  for it.
\<close>

theorem C6_workdir_not_released:
  "New dockerd_containerd test_config
       (all_succeed\<lparr>NewDaemon := Some (Err ''mkdir: no space left on device'')\<rparr>)
       release_ok =
     Some ((None, None,
            Some (ErrorsErrorf ''new daemon error: %q, %s''
                    (Err ''mkdir: no space left on device'') ''daemon logs'')),
           unwound (tr_workdir ''/tmp/integration1'') [GroupWait]) \<and>
   acquired (trace (unwound (tr_workdir ''/tmp/integration1'') [GroupWait])) =
     [WorkDir ''/tmp/integration1''] \<and>
   registered (trace (unwound (tr_workdir ''/tmp/integration1'') [GroupWait])) =
     [GroupWait] \<and>
   executed (trace (unwound (tr_workdir ''/tmp/integration1'') [GroupWait])) =
     [GroupWait] \<and>
   leaked (trace (unwound (tr_workdir ''/tmp/integration1'') [GroupWait])) =
     [WorkDir ''/tmp/integration1'']"
  by (cases dockerd_containerd test_config
      "all_succeed\<lparr>NewDaemon := Some (Err ''mkdir: no space left on device'')\<rparr>" release_ok
      rule: New_cases)
    (simp_all add: fixtures trace_unwound tr_defs trace_reads leaked_def gives_back_def)

section \<open>Calling the teardown function again\<close>

text \<open>Once the tracker is empty, further calls collect no error and run nothing.\<close>

lemma repeat_teardown_emptied:
  assumes "fns (deferF st) = []"
  shows "list_all (\<lambda>es. es = []) (fst (repeat_teardown cl rels st)) \<and>
         length (fst (repeat_teardown cl rels st)) = length rels \<and>
         executed (trace (snd (repeat_teardown cl rels st))) = executed (trace st)"
  using assms
proof (induction rels arbitrary: st)
  case Nil
  then show ?case by simp
next
  case (Cons rel rels)
  have cl: "cl = DeferF" by (cases cl) simp
  have e: "fns (deferF (snd (F rel st))) = []" by (rule F_emptied)
  from Cons.IH [OF e] F_no_error [OF Cons.prems, of rel] executed_F [of rel st] Cons.prems
  show ?case by (simp add: cl call_teardown_def split_beta)
qed

text \<open>
  C9. After a successful \<open>New\<close> nothing has been released. The first call of the
  teardown function runs the four actions, each once. Every later call, however many
  there are and whatever the actions would return, returns (the model is a total
  function), collects no error and runs no action: the actions run so far stay the four
  of the first call.
\<close>

theorem C9_teardown_idempotent:
  assumes "New c cfg w rel = Some ((b, Some cl, None), st)"
  shows "executed (trace st) = [] \<and>
    (\<forall>rel1 rels.
       list_all (\<lambda>es. es = [])
         (fst (repeat_teardown cl rels (snd (call_teardown cl rel1 st)))) \<and>
       length (fst (repeat_teardown cl rels (snd (call_teardown cl rel1 st)))) = length rels \<and>
       executed (trace (snd (repeat_teardown cl rels (snd (call_teardown cl rel1 st))))) =
         [ListenerClose, ClientClose, DaemonStop, GroupWait])"
proof -
  have cl: "cl = DeferF" by (cases cl) simp
  from assms have fns: "fns (deferF st) = [GroupWait, DaemonStop, ClientClose, ListenerClose]"
    by (cases c cfg w rel rule: New_cases) auto
  from assms have ex: "executed (trace st) = []"
    by (cases c cfg w rel rule: New_cases) (auto simp: tr_defs trace_reads)
  {
    fix rel1 rels
    let ?st1 = "snd (call_teardown cl rel1 st)"
    have e: "fns (deferF ?st1) = []" by (simp add: cl call_teardown_def F_emptied)
    have x: "executed (trace ?st1) = [ListenerClose, ClientClose, DaemonStop, GroupWait]"
      using executed_F [of rel1 st] fns ex by (simp add: cl call_teardown_def)
    from repeat_teardown_emptied [OF e, of cl rels] x
    have "list_all (\<lambda>es. es = []) (fst (repeat_teardown cl rels ?st1)) \<and>
       length (fst (repeat_teardown cl rels ?st1)) = length rels \<and>
       executed (trace (snd (repeat_teardown cl rels ?st1))) =
         [ListenerClose, ClientClose, DaemonStop, GroupWait]" by simp
  }
  with ex show ?thesis by blast
qed

text \<open>
  A successful bootstrap, a first teardown, then two more calls whose actions would
  fail if they were run.
\<close>

theorem C9_teardown_idempotent_witness:
  "New dockerd_containerd test_config all_succeed release_ok =
     Some ((Some \<lparr>address = ''unix:///tmp/buildkit-integration2'', rootless = False,
                  isDockerd = True,
                  unsupportedFeatures = [''FeatureSecurityMode'', ''FeatureCNINetwork'']\<rparr>,
            Some DeferF, None), booted) \<and>
   fst (repeat_teardown DeferF [release_fails, release_fails]
          (snd (call_teardown DeferF release_ok booted))) = [[], []] \<and>
   executed (trace (snd (repeat_teardown DeferF [release_fails, release_fails]
          (snd (call_teardown DeferF release_ok booted))))) =
     [ListenerClose, ClientClose, DaemonStop, GroupWait]"
proof -
  note inst = C9_teardown_idempotent [OF New_all_succeed [of release_ok], THEN conjunct2,
      THEN spec, of release_ok, THEN spec, of "[release_fails, release_fails]"]
  have x: "executed (trace (snd (repeat_teardown DeferF [release_fails, release_fails]
            (snd (call_teardown DeferF release_ok booted))))) =
       [ListenerClose, ClientClose, DaemonStop, GroupWait]"
    using inst by (elim conjE)
  have "fst (repeat_teardown DeferF [release_fails, release_fails]
          (snd (call_teardown DeferF release_ok booted))) = [[], []]"
    by (simp add: call_teardown_def F_def Let_def release_order_def List.map_filter_simps
        booted_def)
  with x New_all_succeed [of release_ok] show ?thesis by simp
qed

section \<open>The backend returned\<close>

text \<open>
  C10. Whenever \<open>New\<close> returns a nil error, the local listener was created, the backend
  returned has the address \<^verbatim>\<open>unix://\<close> followed by the listener's address, the worker's
  rootless flag, the dockerd flag set and the worker's list of unsupported features, and
  the teardown function returned with it is not nil.
\<close>

theorem C10_backend:
  assumes "New c cfg w rel = Some ((b, cl, None), st)"
  shows "\<exists>a. Listen w = Inr a \<and>
    b = Some \<lparr>address = ''unix://'' @ a, rootless = moby.rootless c, isDockerd = True,
              unsupportedFeatures = unsupported c\<rparr> \<and>
    cl = Some DeferF \<and> cl \<noteq> None"
  using assms by (cases c cfg w rel rule: New_cases) auto

theorem C10_backend_witness:
  "New dockerd_containerd test_config all_succeed release_ok =
     Some ((Some \<lparr>address = ''unix:///tmp/buildkit-integration2'', rootless = False,
                  isDockerd = True,
                  unsupportedFeatures = [''FeatureSecurityMode'', ''FeatureCNINetwork'']\<rparr>,
            Some DeferF, None), booted) \<and>
   Listen all_succeed = Inr ''/tmp/buildkit-integration2'' \<and>
   moby.rootless dockerd_containerd = False \<and>
   unsupported dockerd_containerd = [''FeatureSecurityMode'', ''FeatureCNINetwork'']"
proof -
  from C10_backend [OF New_all_succeed [of release_ok]]
  have "Listen all_succeed = Inr ''/tmp/buildkit-integration2''" by auto
  with New_all_succeed [of release_ok] show ?thesis by (simp add: dockerd_containerd_def)
qed

section \<open>The accept loop\<close>

text \<open>While every turn accepts and dials, the loop starts two goroutines a turn and stays in.\<close>

lemma accept_loop_served:
  "list_all accepted_and_dialled pre \<Longrightarrow>
     accept_loop (pre @ rest) started = accept_loop rest (started @ concat (map served pre))"
proof (induction pre arbitrary: started)
  case Nil
  then show ?case by simp
next
  case (Cons t pre)
  from Cons.prems obtain tmpConn conn where t: "t = (Inr tmpConn, Inr conn)"
    by (auto simp: accepted_and_dialled_def split: prod.splits sum.splits)
  from Cons.prems have "list_all accepted_and_dialled pre" by simp
  from Cons.IH [OF this] show ?case by (simp add: t accept_turn_def)
qed

text \<open>
  C2, as stated, on two connections: \<^verbatim>\<open>DialHijack\<close> fails for the first, and the second
  would be accepted and dialled without error. The loop's goroutine returns the dial
  error at line 189; the second connection is never accepted and gets no goroutine.
\<close>

theorem C2_dial_failure_counterexample:
  "accept_loop [(Inr (LocalConn 0), Inl (Err ''dial failed'')),
                (Inr (LocalConn 1), Inr (BackendStream 1))] [] =
     ([], Some (Some (Err ''dial failed'')))"
  by (simp add: accept_turn_def)

text \<open>
  C2, amended. If \<^verbatim>\<open>DialHijack\<close> fails for an accepted connection, the accept loop
  ends: its goroutine returns the dial error to the task group. The connections served
  before keep the two goroutines each of them got; the failing connection gets none, and
  nothing that follows is accepted, whatever it is.
\<close>

theorem C2_dial_failure:
  assumes "list_all accepted_and_dialled pre"
  shows "accept_loop (pre @ (Inr tmpConn, Inl e) # post) started =
           (started @ concat (map served pre), Some (Some e))"
  using accept_loop_served [OF assms] by (simp add: accept_turn_def)

theorem C2_dial_failure_witness:
  "list_all accepted_and_dialled [(Inr (LocalConn 0), Inr (BackendStream 0))] \<and>
   accept_loop [(Inr (LocalConn 0), Inr (BackendStream 0)),
                (Inr (LocalConn 1), Inl (Err ''dial failed'')),
                (Inr (LocalConn 2), Inr (BackendStream 2))] [] =
     ([LocalToBackend (LocalConn 0) (BackendStream 0),
       BackendToLocal (LocalConn 0) (BackendStream 0)], Some (Some (Err ''dial failed'')))"
proof -
  have h: "list_all accepted_and_dialled [(Inr (LocalConn 0), Inr (BackendStream 0))]"
    by (simp add: accepted_and_dialled_def)
  from C2_dial_failure [OF h, of "LocalConn 1" "Err ''dial failed''"
      "[(Inr (LocalConn 2), Inr (BackendStream 2))]" "[]"] h
  show ?thesis by simp
qed

text \<open>
  C3, as stated, at an error of \<^verbatim>\<open>Accept\<close> that no close of the listener explains: the
  process has run out of file descriptors while the listener is open and no teardown is
  under way. The loop's goroutine returns nil at line 185, so the error is not surfaced;
  in the interleaved model this is a step from the relay's first state, where the
  listener is open and the teardown function has not been called.
\<close>

theorem C3_accept_error_counterexample:
  "accept_loop [(Inl (Err ''accept4: too many open files''), Inr (BackendStream 0))] [] =
     ([], Some None) \<and>
   \<not> listener_closed (relay_start booted) \<and> pending (relay_start booted) = None \<and>
   relay_step (relay_start booted) ((relay_start booted)\<lparr>loop_exit := Some None\<rparr>)"
proof -
  have "relay_step (relay_start booted) ((relay_start booted)\<lparr>loop_exit := Some None\<rparr>)"
    using turn_return [of "relay_start booted" "Inl (Err ''accept4: too many open files'')"
        "Inr (BackendStream 0)" None]
    by (simp add: relay_start_def accept_turn_def)
  then show ?thesis by (simp add: accept_turn_def relay_start_def)
qed

text \<open>
  C3, amended. For every error returned by \<^verbatim>\<open>listener.Accept\<close>, whatever its cause (a
  close of the listener during teardown or anything else), the accept loop ends with no
  reported error: its goroutine returns nil and the error is dropped.
\<close>

theorem C3_accept_error:
  assumes "list_all accepted_and_dialled pre"
  shows "accept_loop (pre @ (Inl e, d) # post) started =
           (started @ concat (map served pre), Some None)"
  using accept_loop_served [OF assms] by (simp add: accept_turn_def)

theorem C3_accept_error_witness:
  "list_all accepted_and_dialled [(Inr (LocalConn 0), Inr (BackendStream 0))] \<and>
   accept_loop [(Inr (LocalConn 0), Inr (BackendStream 0)),
                (Inl (Err ''use of closed network connection''), Inr (BackendStream 1))] [] =
     ([LocalToBackend (LocalConn 0) (BackendStream 0),
       BackendToLocal (LocalConn 0) (BackendStream 0)], Some None)"
proof -
  have h: "list_all accepted_and_dialled [(Inr (LocalConn 0), Inr (BackendStream 0))]"
    by (simp add: accepted_and_dialled_def)
  from C3_accept_error [OF h, of "Err ''use of closed network connection''"
      "Inr (BackendStream 1)" "[]" "[]"] h
  show ?thesis by simp
qed

section \<open>The copy goroutines\<close>

text \<open>
  C7, as stated, at the goroutine that copies from the local connection to the backend
  stream. The other goroutine of the pair reads from the backend stream, so the claim
  has this one close (the write side of) the backend stream. At end-of-stream it closes
  the local connection, the one it was reading from, and nothing else; when the copy
  fails it closes nothing.
\<close>

theorem C7_forwarding_close_counterexample:
  "ops (run_task (LocalToBackend (LocalConn 0) (BackendStream 0)) CopyEOF close_ok) =
     [Close (LocalConn 0)] \<and>
   reads_from (opposite (LocalToBackend (LocalConn 0) (BackendStream 0))) = BackendStream 0 \<and>
   ops (run_task (LocalToBackend (LocalConn 0) (BackendStream 0))
          (CopyFailed (Err ''read: connection reset by peer'')) close_ok) = []"
  by (simp add: local_to_backend_def)

text \<open>
  C7, amended. Each of the two goroutines of a connection, when its copy ends at
  end-of-stream, closes the connection it was reading from (the whole connection, with
  \<^verbatim>\<open>Close\<close>) and returns what that close returns; so when both copies of a pair have
  ended at end-of-stream, both the local connection and the backend stream have been
  closed.
\<close>

theorem C7_forwarding_close:
  "run_task t CopyEOF close =
     \<lparr>ops = [Close (reads_from t)], task_err = close (reads_from t)\<rparr> \<and>
   set (ops (run_task t CopyEOF close) @ ops (run_task (opposite t) CopyEOF close)) =
     {Close (reads_from t), Close (writes_to t)}"
  by (cases t) (auto simp: local_to_backend_def backend_to_local_def)

theorem C7_forwarding_close_witness:
  "run_task (BackendToLocal (LocalConn 0) (BackendStream 0)) CopyEOF close_ok =
     \<lparr>ops = [Close (BackendStream 0)], task_err = None\<rparr>"
  using C7_forwarding_close [of "BackendToLocal (LocalConn 0) (BackendStream 0)" close_ok]
  by (simp add: close_ok_def)

section \<open>The teardown waits for the relay\<close>

lemma suffix_relay_order:
  "suffix p relay_order \<longleftrightarrow>
     p = [ListenerClose, ClientClose, DaemonStop, GroupWait] \<or>
     p = [ClientClose, DaemonStop, GroupWait] \<or> p = [DaemonStop, GroupWait] \<or>
     p = [GroupWait] \<or> p = []"
  by (auto simp: relay_order_def suffix_Cons)

lemma relay_step_inv:
  assumes "relay_step s s'" "relay_inv s"
  shows "relay_inv s'"
  using assms
proof (induction rule: relay_step.induct)
  case (action_run s a as)
  then show ?case
    by (auto simp: relay_inv_def release_effect_def suffix_relay_order)
next
  case (teardown_called s)
  then show ?case by (simp add: relay_inv_def) (simp add: relay_order_def)
qed (auto simp: relay_inv_def split: option.splits)

lemma relay_reach_inv:
  assumes "relay_step\<^sup>*\<^sup>* s0 s" "relay_inv s0"
  shows "relay_inv s"
  using assms by (induction rule: rtranclp_induct) (auto intro: relay_step_inv)

text \<open>
  A run of the relay and the teardown: a connection is accepted and served, the caller
  calls the teardown function, the listener is closed, \<^verbatim>\<open>Accept\<close> fails and the loop
  returns, the two copy goroutines return, the client is closed, the daemon stopped, and
  the wait returns.
\<close>

lemma relay_run:
  assumes "fns (deferF st) = [GroupWait, DaemonStop, ClientClose, ListenerClose]"
  shows "relay_step\<^sup>*\<^sup>* (relay_start st) (drained st)"
proof -
  let ?l2b = "LocalToBackend (LocalConn 0) (BackendStream 0)"
  let ?b2l = "BackendToLocal (LocalConn 0) (BackendStream 0)"
  define r0 where "r0 = relay_start st"
  define r1 where "r1 = r0\<lparr>forwarders := [?l2b, ?b2l]\<rparr>"
  define r2 where
    "r2 = r1\<lparr>pending := Some [ListenerClose, ClientClose, DaemonStop, GroupWait]\<rparr>"
  define r3 where
    "r3 = r2\<lparr>pending := Some [ClientClose, DaemonStop, GroupWait], listener_closed := True\<rparr>"
  define r4 where "r4 = r3\<lparr>loop_exit := Some None\<rparr>"
  define r5 where "r5 = r4\<lparr>forwarders := [?b2l]\<rparr>"
  define r6 where "r6 = r5\<lparr>forwarders := []\<rparr>"
  define r7 where "r7 = r6\<lparr>pending := Some [DaemonStop, GroupWait]\<rparr>"
  define r8 where "r8 = r7\<lparr>pending := Some [GroupWait]\<rparr>"
  define r9 where "r9 = r8\<lparr>pending := Some []\<rparr>"
  note defs = r0_def r1_def r2_def r3_def r4_def r5_def r6_def r7_def r8_def r9_def
    relay_start_def release_effect_def release_order_def accept_turn_def
  have "relay_step r0 r1"
    using turn_continue [of r0 "Inr (LocalConn 0)" "Inr (BackendStream 0)" "[?l2b, ?b2l]"]
    by (simp add: defs)
  moreover have "relay_step r1 r2"
    using teardown_called [of r1] assms by (simp add: defs)
  moreover have "relay_step r2 r3"
    using action_run [of r2 ListenerClose "[ClientClose, DaemonStop, GroupWait]"]
    by (simp add: defs)
  moreover have "relay_step r3 r4"
    using turn_return [of r3 "Inl (Err ''use of closed network connection'')"
        "Inr (BackendStream 1)" None]
    by (simp add: defs)
  moreover have "relay_step r4 r5"
    using forwarder_return [of ?l2b r4] by (simp add: defs)
  moreover have "relay_step r5 r6"
    using forwarder_return [of ?b2l r5] by (simp add: defs)
  moreover have "relay_step r6 r7"
    using action_run [of r6 ClientClose "[DaemonStop, GroupWait]"] by (simp add: defs)
  moreover have "relay_step r7 r8"
    using action_run [of r7 DaemonStop "[GroupWait]"] by (simp add: defs)
  moreover have "relay_step r8 r9"
    using action_run [of r8 GroupWait "[]"] by (simp add: defs)
  ultimately have "relay_step\<^sup>*\<^sup>* r0 r9"
    by (meson rtranclp.rtrancl_into_rtrancl rtranclp.rtrancl_refl)
  moreover have "r9 = drained st" by (simp add: defs drained_def)
  ultimately show ?thesis by (simp add: r0_def)
qed

text \<open>
  C8. After a successful \<open>New\<close> the task group's wait is the first action registered, so
  the teardown function runs it last: listener close, client close, daemon stop, wait.
  In every state that the relay and a call of the teardown function can reach together,
  if the teardown function has returned then the listener has been closed, the accept
  loop's goroutine has returned and no copy goroutine is left: the teardown returns only
  after the relayed traffic has drained.
\<close>

theorem C8_teardown_waits:
  assumes "New c cfg w rel = Some ((b, cl, None), st)"
  shows "hd (registered (trace st)) = GroupWait \<and>
    release_order (deferF st) = [ListenerClose, ClientClose, DaemonStop, GroupWait] \<and>
    last (release_order (deferF st)) = GroupWait \<and>
    (\<forall>s. relay_step\<^sup>*\<^sup>* (relay_start st) s \<and> pending s = Some [] \<longrightarrow>
         listener_closed s \<and> loop_exit s \<noteq> None \<and> forwarders s = [])"
proof -
  from assms have ord: "release_order (deferF st) = relay_order"
    by (cases c cfg w rel rule: New_cases) (auto simp: release_order_def relay_order_def)
  from assms have reg: "hd (registered (trace st)) = GroupWait"
    by (cases c cfg w rel rule: New_cases) (auto simp: tr_defs trace_reads)
  have i0: "relay_inv (relay_start st)" by (simp add: relay_inv_def relay_start_def ord)
  {
    fix s assume r: "relay_step\<^sup>*\<^sup>* (relay_start st) s" and p: "pending s = Some []"
    from relay_reach_inv [OF r i0] p
    have "listener_closed s \<and> loop_exit s \<noteq> None \<and> forwarders s = []"
      by (simp add: relay_inv_def)
  }
  moreover have "last (release_order (deferF st)) = GroupWait"
    by (simp add: ord relay_order_def)
  ultimately show ?thesis using ord reg unfolding relay_order_def by blast
qed

text \<open>
  The run \<open>relay_run\<close> after the bootstrap in which every call succeeds: the teardown
  function has returned in its last state, and the relay has drained there.
\<close>

theorem C8_teardown_waits_witness:
  "New dockerd_containerd test_config all_succeed release_ok =
     Some ((Some \<lparr>address = ''unix:///tmp/buildkit-integration2'', rootless = False,
                  isDockerd = True,
                  unsupportedFeatures = [''FeatureSecurityMode'', ''FeatureCNINetwork'']\<rparr>,
            Some DeferF, None), booted) \<and>
   relay_step\<^sup>*\<^sup>* (relay_start booted) (drained booted) \<and>
   pending (drained booted) = Some [] \<and>
   listener_closed (drained booted) \<and> loop_exit (drained booted) \<noteq> None \<and>
   forwarders (drained booted) = []"
proof -
  have run: "relay_step\<^sup>*\<^sup>* (relay_start booted) (drained booted)"
    by (rule relay_run) (simp add: booted_def)
  have p: "pending (drained booted) = Some []" by (simp add: drained_def)
  note inst = C8_teardown_waits [OF New_all_succeed [of release_ok], THEN conjunct2,
      THEN conjunct2, THEN conjunct2, THEN spec, of "drained booted"]
  from inst run p
  have "listener_closed (drained booted) \<and> loop_exit (drained booted) \<noteq> None \<and>
     forwarders (drained booted) = []" by blast
  with run p New_all_succeed [of release_ok] show ?thesis by simp
qed

end
